theory Spec2Isabelle
  imports Main "HOL-Library.Word" "HOL-Library.Signed_Division" "HOL-Library.Multiset"
    "HOL-Library.Monad_Syntax"
begin

section \<open>Common ground of the generated programs\<close>

text \<open>
  The repository holds C programs emitted by the 1im code generator. Each program is
  embedded function by function. \<open>int32_t\<close> and \<open>int64_t\<close> are 32- and 64-bit words read
  through \<open>sint\<close>; standard output is the list of the lines written so far, since every
  \<open>printf\<close> of the corpus has a format that ends in a newline and holds no other.
\<close>

type_synonym int32_t = "32 word"
type_synonym int64_t = "64 word"
type_synonym stdout = "string list"

text \<open>Decimal rendering, as \<open>%d\<close> and \<open>PRId64\<close> print a signed integer.\<close>

definition digit_char :: "nat \<Rightarrow> char" where
  "digit_char d = ''0123456789'' ! d"

fun dec_nat :: "nat \<Rightarrow> string" where
  "dec_nat n = (if n < 10 then [digit_char n] else dec_nat (n div 10) @ [digit_char (n mod 10)])"

declare dec_nat.simps [simp del]

definition dec_int :: "int \<Rightarrow> string" where
  "dec_int k = (if k < 0 then CHR ''-'' # dec_nat (nat (- k)) else dec_nat (nat k))"

text \<open>\<open>printf("%d\n", (int)n)\<close> and \<open>printf("%" PRId64 "\n", (int64_t)n)\<close>.\<close>

definition printf_d :: "int32_t \<Rightarrow> stdout \<Rightarrow> stdout" where
  "printf_d n out = out @ [dec_int (sint n)]"

definition printf_d64 :: "int64_t \<Rightarrow> stdout \<Rightarrow> stdout" where
  "printf_d64 n out = out @ [dec_int (sint n)]"

text \<open>\<open>printf("%s\n", s)\<close>.\<close>

definition printf_s :: "string \<Rightarrow> stdout \<Rightarrow> stdout" where
  "printf_s s out = out @ [s]"

section \<open>The result struct \<open>err_i32_str\<close> (try_catch.c, try_propagate.c)\<close>

text \<open>
  \<open>typedef struct { bool ok; int32_t value; const char* err; } err_i32_str;\<close>
  The field \<open>value\<close> is written \<open>value_i32\<close> (\<open>value\<close> is a command of Isabelle). A
  \<open>const char*\<close> is \<open>None\<close> for \<open>NULL\<close> and \<open>Some s\<close> for a pointer to the text \<open>s\<close>.
\<close>

type_synonym c_str = "string option"

record err_i32_str =
  ok :: bool
  value_i32 :: int32_t
  err :: c_str

definition err_i32_str_ok :: "int32_t \<Rightarrow> err_i32_str" where
  "err_i32_str_ok v = \<lparr> ok = True, value_i32 = v, err = None \<rparr>"

definition err_i32_str_err :: "c_str \<Rightarrow> err_i32_str" where
  "err_i32_str_err e = \<lparr> ok = False, value_i32 = 0, err = e \<rparr>"

text \<open>
  The programs that use the struct run in a state that holds standard output and a log
  of the fields of result values read so far, each with the variable it was read from.
  The log is what makes "this field is never read" a statement about a run.
\<close>

datatype field = F_ok | F_value | F_err

record try_state =
  printed :: stdout
  reads :: "(string \<times> field) list"

definition rd :: "string \<Rightarrow> field \<Rightarrow> try_state \<Rightarrow> try_state" where
  "rd var f st = st\<lparr> reads := reads st @ [(var, f)] \<rparr>"

text \<open>\<open>printf("%s\n", err)\<close>: a null pointer is not printed by any program here.\<close>

definition printf_err :: "c_str \<Rightarrow> try_state \<Rightarrow> try_state" where
  "printf_err e st = st\<lparr> printed := printf_s (case e of None \<Rightarrow> ''(null)'' | Some s \<Rightarrow> s) (printed st) \<rparr>"

text \<open>\<open>err_i32_str fail() { return err_i32_str_err("boom"); }\<close>\<close>

definition fail :: "try_state \<Rightarrow> err_i32_str \<times> try_state" where
  "fail st = (err_i32_str_err (Some ''boom''), st)"

text \<open>
  try_propagate.c, \<open>wrap\<close>:
  \<^verbatim>\<open>
  err_i32_str __try0 = fail();
  if (!__try0.ok) return err_i32_str_err(__try0.err);
  int32_t x = __try0.value;
  return err_i32_str_ok(x);
  \<close>
\<close>

definition wrap :: "try_state \<Rightarrow> err_i32_str \<times> try_state" where
  "wrap st =
     (let (try0, st1) = fail st;
          st2 = rd ''__try0'' F_ok st1
      in if \<not> ok try0 then (err_i32_str_err (err try0), rd ''__try0'' F_err st2)
         else let x = value_i32 try0;
                  st3 = rd ''__try0'' F_value st2
              in (err_i32_str_ok x, st3))"

text \<open>
  try_propagate.c, \<open>main\<close>:
  \<^verbatim>\<open>
  err_i32_str __try1 = wrap();
  if (!__try1.ok) { const char* err = __try1.err; printf("%s\n", err); }
  return 0;
  \<close>
  The result is the final state and the exit status.
\<close>

definition try_propagate_main :: "try_state \<Rightarrow> try_state \<times> int" where
  "try_propagate_main st =
     (let (try1, st1) = wrap st;
          st2 = rd ''__try1'' F_ok st1
      in if \<not> ok try1
         then (let e = err try1; st3 = rd ''__try1'' F_err st2 in (printf_err e st3, 0))
         else (st2, 0))"

text \<open>try_catch.c, \<open>main\<close>: the same handler applied to \<open>fail()\<close> directly.\<close>

definition try_catch_main :: "try_state \<Rightarrow> try_state \<times> int" where
  "try_catch_main st =
     (let (try0, st1) = fail st;
          st2 = rd ''__try0'' F_ok st1
      in if \<not> ok try0
         then (let e = err try0; st3 = rd ''__try0'' F_err st2 in (printf_err e st3, 0))
         else (st2, 0))"

definition try_start :: try_state where
  "try_start = \<lparr> printed = [], reads = [] \<rparr>"

text \<open>The payload that the discriminant does not select holds its default.\<close>

definition default_unselected :: "err_i32_str \<Rightarrow> bool" where
  "default_unselected r = (if ok r then err r = None else value_i32 r = 0)"

section \<open>Arrays and slices (function_arrays.c, for_array.c)\<close>

text \<open>
  Memory holds the array objects of a program, each under the name of its declaration;
  a pointer to \<open>int32_t\<close> is an object together with an element offset. A read outside
  an object (undefined in C) is \<open>None\<close>. \<open>size_t\<close> is \<open>nat\<close>: the lengths and indices
  of these programs stay below 4.
\<close>

type_synonym ptr = "string \<times> nat"
type_synonym memory = "string \<rightharpoonup> int32_t list"

definition load :: "memory \<Rightarrow> ptr \<Rightarrow> int32_t option" where
  "load m p =
     (case m (fst p) of
        None \<Rightarrow> None
      | Some xs \<Rightarrow> if snd p < length xs then Some (xs ! snd p) else None)"

definition store :: "memory \<Rightarrow> ptr \<Rightarrow> int32_t \<Rightarrow> memory option" where
  "store m p v =
     (case m (fst p) of
        None \<Rightarrow> None
      | Some xs \<Rightarrow> if snd p < length xs then Some (m(fst p \<mapsto> xs[snd p := v])) else None)"

text \<open>\<open>p + i\<close> and \<open>p[i]\<close>.\<close>

definition ptr_add :: "ptr \<Rightarrow> nat \<Rightarrow> ptr" where
  "ptr_add p i = (fst p, snd p + i)"

definition index :: "memory \<Rightarrow> ptr \<Rightarrow> nat \<Rightarrow> int32_t option" where
  "index m p i = load m (ptr_add p i)"

text \<open>
  \<open>typedef struct { int32_t* data; size_t len; } slice_i32;\<close>
  \<open>typedef struct { int32_t value[3]; } arrret_arr3_i32;\<close>
\<close>

record slice_i32 =
  data :: ptr
  len :: nat

record arrret_arr3_i32 =
  value_arr3 :: "int32_t list"

text \<open>
  A local array declared with or without an initialiser, and
  \<open>memcpy(dst, src, n * sizeof(int32_t))\<close> from an array value into an array object:
  the first \<open>n\<close> elements are overwritten, and copying more than either side holds is
  \<open>None\<close>.
\<close>

definition declare_array :: "string \<Rightarrow> int32_t list \<Rightarrow> memory \<Rightarrow> memory" where
  "declare_array name xs m = m(name \<mapsto> xs)"

definition memcpy :: "string \<Rightarrow> int32_t list \<Rightarrow> nat \<Rightarrow> memory \<Rightarrow> memory option" where
  "memcpy dst src n m =
     (case m dst of
        None \<Rightarrow> None
      | Some xs \<Rightarrow> if n \<le> length xs \<and> n \<le> length src
                  then Some (m(dst \<mapsto> take n src @ drop n xs)) else None)"

text \<open>function_arrays.c: \<open>first\<close>, \<open>make3\<close>, \<open>id_slice\<close>.\<close>

definition first :: "memory \<Rightarrow> ptr \<Rightarrow> int32_t option" where
  "first m nums = index m nums 0"

definition make3 :: "arrret_arr3_i32" where
  "make3 = \<lparr> value_arr3 = [7, 8, 9] \<rparr>"

definition id_slice :: "slice_i32 \<Rightarrow> slice_i32" where
  "id_slice nums = nums"

text \<open>
  function_arrays.c, \<open>main\<close>:
  \<^verbatim>\<open>
  int32_t arr[3];
  memcpy(arr, (make3()).value, sizeof(arr));
  printf("%d\n", (int)first(arr));
  int32_t s_data[3] = {4, 5, 6};
  slice_i32 s = { s_data, 3 };
  slice_i32 s2 = id_slice(s);
  printf("%d\n", (int)s2.data[1]);
  return 0;
  \<close>
  The uninitialised \<open>arr\<close> starts with three values \<open>junk 0\<close>, \<open>junk 1\<close>, \<open>junk 2\<close>.
  The result is the final memory, the output and the exit status.
\<close>

definition function_arrays_main ::
  "(nat \<Rightarrow> int32_t) \<Rightarrow> memory \<Rightarrow> stdout \<Rightarrow> (memory \<times> stdout \<times> int) option" where
  "function_arrays_main junk m0 out0 = do {
     let m1 = declare_array ''arr'' (map junk [0..<3]) m0;
     m2 \<leftarrow> memcpy ''arr'' (value_arr3 make3) 3 m1;
     a0 \<leftarrow> first m2 (''arr'', 0);
     let out1 = printf_d a0 out0;
     let m3 = declare_array ''s_data'' [4, 5, 6] m2;
     let s = \<lparr> data = (''s_data'', 0), len = 3 \<rparr>;
     let s2 = id_slice s;
     e \<leftarrow> index m3 (data s2) 1;
     Some (m3, printf_d e out1, 0)
   }"

text \<open>
  for_array.c, the loop over the fixed array:
  \<^verbatim>\<open>
  for (size_t __i0 = 0; __i0 < 3; __i0++) { int32_t n = nums[__i0]; printf("%d\n", (int)n); }
  \<close>
\<close>

function for_nums :: "memory \<Rightarrow> nat \<Rightarrow> stdout \<Rightarrow> stdout option" where
  "for_nums m i0 out =
     (if i0 < 3
      then case index m (''nums'', 0) i0 of
             None \<Rightarrow> None
           | Some n \<Rightarrow> for_nums m (i0 + 1) (printf_d n out)
      else Some out)"
  by pat_completeness auto
termination
  by (relation "measure (\<lambda>(m, i0, out). 3 - i0)") auto

declare for_nums.simps [simp del]

text \<open>
  for_array.c, the loop over the slice, run on the temporary \<open>__iter3\<close>:
  \<^verbatim>\<open>
  for (size_t __i2 = 0; __i2 < __iter3.len; __i2++) {
      int32_t x = __iter3.data[__i2]; printf("%d\n", (int)x); }
  \<close>
\<close>

function for_iter3 :: "memory \<Rightarrow> slice_i32 \<Rightarrow> nat \<Rightarrow> stdout \<Rightarrow> stdout option" where
  "for_iter3 m iter3 i2 out =
     (if i2 < len iter3
      then case index m (data iter3) i2 of
             None \<Rightarrow> None
           | Some x \<Rightarrow> for_iter3 m iter3 (i2 + 1) (printf_d x out)
      else Some out)"
  by pat_completeness auto
termination
  by (relation "measure (\<lambda>(m, iter3, i2, out). len iter3 - i2)") auto

declare for_iter3.simps [simp del]

text \<open>
  for_array.c, \<open>main\<close>:
  \<^verbatim>\<open>
  int32_t nums[3] = {1, 2, 3};
  { for (...) ... }
  int32_t s_data[3] = {4, 5, 6};
  slice_i32 s = { s_data, 3 };
  { slice_i32 __iter3 = s; for (...) ... }
  return 0;
  \<close>
\<close>

definition for_array_main :: "memory \<Rightarrow> stdout \<Rightarrow> (memory \<times> stdout \<times> int) option" where
  "for_array_main m0 out0 = do {
     let m1 = declare_array ''nums'' [1, 2, 3] m0;
     out1 \<leftarrow> for_nums m1 0 out0;
     let m2 = declare_array ''s_data'' [4, 5, 6] m1;
     let s = \<lparr> data = (''s_data'', 0), len = 3 \<rparr>;
     let iter3 = s;
     out2 \<leftarrow> for_iter3 m2 iter3 0 out1;
     Some (m2, out2, 0)
   }"

section \<open>Integer loops (gcd.c, prime.c)\<close>

text \<open>
  The operator \<open>%\<close> of C truncates towards zero. It is undefined for a zero divisor,
  and for the least value of the type divided by \<open>-1\<close>, whose quotient overflows (the
  compiled code traps on both). The embedding guards both: \<open>Inl DivByZero\<close> is the run
  that would divide by zero, \<open>Inl SignedOverflow\<close> the run that would take the least
  value modulo \<open>-1\<close>. Sums, products and increments wrap around at the width of the
  type.
\<close>

datatype c_error = DivByZero | SignedOverflow

definition c_mod :: "'a::len word \<Rightarrow> 'a word \<Rightarrow> c_error + 'a word" where
  "c_mod a b =
     (if b = 0 then Inl DivByZero
      else if sint a = - (2 ^ (LENGTH('a) - 1)) \<and> b = - 1 then Inl SignedOverflow
      else Inr (word_of_int (sint a smod sint b)))"

lemma smod_int_abs_less: "(l :: int) \<noteq> 0 \<Longrightarrow> \<bar>k smod l\<bar> < \<bar>l\<bar>"
  by (simp add: signed_modulo_int_def abs_mult)

lemma sint_of_int_small:
  "\<bar>k\<bar> < 2 ^ (LENGTH('a::len) - 1) \<Longrightarrow> sint (word_of_int k :: 'a word) = k"
  by (simp add: sint_sbintrunc' signed_take_bit_int_eq_self)

lemma abs_sint_le: "\<bar>sint (w :: 'a::len word)\<bar> \<le> 2 ^ (LENGTH('a) - 1)"
  using sint_ge [of w] sint_lt [of w] by simp

lemma c_mod_decreases:
  assumes "c_mod a b = Inr r"
  shows "\<bar>sint r\<bar> < \<bar>sint b\<bar>"
proof -
  from assms have nz: "b \<noteq> 0" and r: "r = word_of_int (sint a smod sint b)"
    by (auto simp: c_mod_def split: if_splits)
  from nz have "sint b \<noteq> 0"
    by (simp add: signed_eq_0_iff)
  then have lt: "\<bar>sint a smod sint b\<bar> < \<bar>sint b\<bar>"
    by (rule smod_int_abs_less)
  with abs_sint_le [of b] have "\<bar>sint a smod sint b\<bar> < 2 ^ (LENGTH('a) - 1)"
    by linarith
  then show ?thesis
    using lt by (simp add: r sint_of_int_small)
qed

text \<open>
  gcd.c, the loop of \<open>main\<close>, from any \<open>a\<close> and \<open>b\<close>:
  \<^verbatim>\<open>
  while ((b != 0)) { int32_t temp = b; b = (a % b); a = temp; }
  \<close>
  The result is the pair of \<open>a\<close> and \<open>b\<close> at the exit of the loop.
\<close>

function gcd_loop :: "int32_t \<Rightarrow> int32_t \<Rightarrow> c_error + (int32_t \<times> int32_t)" where
  "gcd_loop a b =
     (if b \<noteq> 0
      then let temp = b in
           case c_mod a b of
             Inl e \<Rightarrow> Inl e
           | Inr b' \<Rightarrow> gcd_loop temp b'
      else Inr (a, b))"
  by pat_completeness auto
termination
  by (relation "measure (\<lambda>(a, b). nat \<bar>sint b\<bar>)") (auto dest: c_mod_decreases)

declare gcd_loop.simps [simp del]

text \<open>
  gcd.c, \<open>main\<close>: \<open>int32_t a = 48; int32_t b = 18;\<close>, the loop,
  \<open>printf("%d\n", (int)a); return 0;\<close>
\<close>

definition gcd_main :: "stdout \<Rightarrow> c_error + (stdout \<times> int)" where
  "gcd_main out =
     (case gcd_loop 48 18 of
        Inl e \<Rightarrow> Inl e
      | Inr (a, b) \<Rightarrow> Inr (printf_d a out, 0))"

lemma succ_nonzero_measure: "(i :: 'a::len word) \<noteq> 0 \<Longrightarrow> unat (- i - 1) < unat (- i)"
proof -
  assume "i \<noteq> 0"
  then have "- i \<noteq> 0" by simp
  then have "unat (- i - 1) = unat (- i) - 1"
    by (rule unat_minus_one)
  moreover have "unat (- i) \<noteq> 0"
    using \<open>- i \<noteq> 0\<close> by (simp add: unat_eq_zero)
  ultimately show ?thesis by simp
qed

text \<open>
  prime.c, the loop of \<open>main\<close>, from any \<open>n\<close>, \<open>i\<close> and \<open>is_prime\<close>:
  \<^verbatim>\<open>
  while (((i * i) <= n)) { if (((n % i) == 0)) { is_prime = false; } i = (i + 1); }
  \<close>
  With wrap-around the guarded loop always ends: \<open>i\<close> counts up, and at \<open>i = 0\<close> at the
  latest it leaves the loop or fails.
\<close>

function prime_loop :: "int32_t \<Rightarrow> int32_t \<Rightarrow> bool \<Rightarrow> c_error + (int32_t \<times> bool)" where
  "prime_loop n i is_prime =
     (if sint (i * i) \<le> sint n
      then case c_mod n i of
             Inl e \<Rightarrow> Inl e
           | Inr r \<Rightarrow> prime_loop n (i + 1) (if r = 0 then False else is_prime)
      else Inr (i, is_prime))"
  by pat_completeness auto
termination
  by (relation "measure (\<lambda>(n, i, is_prime). unat (- i))")
     (auto simp: c_mod_def succ_nonzero_measure split: if_splits)

declare prime_loop.simps [simp del]

text \<open>
  prime.c, \<open>main\<close>:
  \<^verbatim>\<open>
  int32_t n = 29; bool is_prime = true;
  if ((n < 2)) { is_prime = false; } else { int32_t i = 2; while ... }
  printf("%s\n", is_prime ? "true" : "false"); return 0;
  \<close>
\<close>

definition prime_main :: "stdout \<Rightarrow> c_error + (stdout \<times> int)" where
  "prime_main out =
     (let n = 29 :: int32_t; is_prime = True in
      case (if sint n < 2 then Inr False
            else case prime_loop n 2 is_prime of Inl e \<Rightarrow> Inl e | Inr (i, p) \<Rightarrow> Inr p) of
        Inl e \<Rightarrow> Inl e
      | Inr p \<Rightarrow> Inr (printf_s (if p then ''true'' else ''false'') out, 0))"

section \<open>The benchmarks (parallel_block_bench.c, parallel_block_seq_bench.c, toyhash_parallel.c)\<close>

lemma sint_add_in_range:
  assumes "- (2 ^ 63) \<le> sint a + sint b" and "sint a + sint b < 2 ^ 63"
  shows "sint (a + b :: int64_t) = sint a + sint b"
  using assms by (simp add: sint_word_ariths signed_take_bit_int_eq_self)

lemma sint_succ:
  assumes "sint (i :: int64_t) < sint (n :: int64_t)"
  shows "sint (i + 1) = sint i + 1"
proof -
  have "sint n < 2 ^ 63" using sint_lt [of n] by simp
  with assms have hi: "sint i + sint (1 :: int64_t) < 2 ^ 63" by simp
  have lo: "- (2 ^ 63) \<le> sint i + sint (1 :: int64_t)"
    using sint_ge [of i] by simp
  from lo hi have "sint (i + 1) = sint i + sint (1 :: int64_t)"
    by (rule sint_add_in_range)
  then show ?thesis by simp
qed

text \<open>
  The loop of \<open>work1\<close> .. \<open>work4\<close>, the same text in the four functions and in both
  bench files (\<open>sum\<close> is written \<open>sum_v\<close>):
  \<^verbatim>\<open>
  for (int64_t i = start; i < n; i++) { sum = (sum + i); }
  \<close>
\<close>

function work_loop :: "int64_t \<Rightarrow> int64_t \<Rightarrow> int64_t \<Rightarrow> int64_t" where
  "work_loop i n sum_v = (if sint i < sint n then work_loop (i + 1) n (sum_v + i) else sum_v)"
  by pat_completeness auto
termination
  by (relation "measure (\<lambda>(i, n, sum_v). nat (sint n - sint i))") (auto simp: sint_succ)

declare work_loop.simps [simp del]

text \<open>
  \<^verbatim>\<open>
  void work1() {
      int64_t start = 0; int64_t n = 1000000000; volatile int64_t sum = 0;
      for (...) ...
      printf("%" PRId64 "\n", (int64_t)sum); }
  \<close>
  and the same for \<open>work2\<close>, \<open>work3\<close>, \<open>work4\<close>, in both bench files.
\<close>

definition work1 :: "stdout \<Rightarrow> stdout" where
  "work1 out = (let start = 0; n = 1000000000; sum_v = 0 in
                printf_d64 (work_loop start n sum_v) out)"

definition work2 :: "stdout \<Rightarrow> stdout" where
  "work2 out = (let start = 0; n = 1000000000; sum_v = 0 in
                printf_d64 (work_loop start n sum_v) out)"

definition work3 :: "stdout \<Rightarrow> stdout" where
  "work3 out = (let start = 0; n = 1000000000; sum_v = 0 in
                printf_d64 (work_loop start n sum_v) out)"

definition work4 :: "stdout \<Rightarrow> stdout" where
  "work4 out = (let start = 0; n = 1000000000; sum_v = 0 in
                printf_d64 (work_loop start n sum_v) out)"

text \<open>parallel_block_seq_bench.c, \<open>main\<close>: \<open>work1(); work2(); work3(); work4(); return 0;\<close>\<close>

definition parallel_block_seq_bench_main :: "stdout \<Rightarrow> stdout \<times> int" where
  "parallel_block_seq_bench_main out = (work4 (work3 (work2 (work1 out))), 0)"

text \<open>
  toyhash_parallel.c, the loops of \<open>worker1\<close> .. \<open>worker4\<close> (\<open>mod\<close> is written \<open>mod_v\<close>):
  \<^verbatim>\<open>
  for (int64_t r = start; r < runs; r++) {
      int64_t i = 0;
      while ((i < inner)) { h = ((((h * 31) + i) + r) % mod); i = (i + 1); } }
  \<close>
\<close>

function worker_while ::
    "int64_t \<Rightarrow> int64_t \<Rightarrow> int64_t \<Rightarrow> int64_t \<Rightarrow> int64_t \<Rightarrow> c_error + (int64_t \<times> int64_t)" where
  "worker_while i inner mod_v r h =
     (if sint i < sint inner
      then case c_mod (h * 31 + i + r) mod_v of
             Inl e \<Rightarrow> Inl e
           | Inr h' \<Rightarrow> worker_while (i + 1) inner mod_v r h'
      else Inr (i, h))"
  by pat_completeness auto
termination
  by (relation "measure (\<lambda>(i, inner, mod_v, r, h). nat (sint inner - sint i))")
     (auto simp: sint_succ)

declare worker_while.simps [simp del]

function worker_for ::
    "int64_t \<Rightarrow> int64_t \<Rightarrow> int64_t \<Rightarrow> int64_t \<Rightarrow> int64_t \<Rightarrow> c_error + int64_t" where
  "worker_for r runs inner mod_v h =
     (if sint r < sint runs
      then let i = 0 in
           case worker_while i inner mod_v r h of
             Inl e \<Rightarrow> Inl e
           | Inr (i', h') \<Rightarrow> worker_for (r + 1) runs inner mod_v h'
      else Inr h)"
  by pat_completeness auto
termination
  by (relation "measure (\<lambda>(r, runs, inner, mod_v, h). nat (sint runs - sint r))")
     (auto simp: sint_succ)

declare worker_for.simps [simp del]

text \<open>
  \<^verbatim>\<open>
  void worker1() {
      int64_t start = 0; int64_t runs = 2500; int64_t inner = 1000;
      int64_t mod = 2147483647; int64_t h = 7;
      for (...) ...
      printf("%" PRId64 "\n", (int64_t)h); }
  \<close>
  \<open>worker2\<close>, \<open>worker3\<close> and \<open>worker4\<close> start from \<open>h = 11\<close>, \<open>13\<close> and \<open>17\<close>.
\<close>

definition worker1 :: "stdout \<Rightarrow> c_error + stdout" where
  "worker1 out =
     (let start = 0; runs = 2500; inner = 1000; mod_v = 2147483647; h = 7 in
      case worker_for start runs inner mod_v h of
        Inl e \<Rightarrow> Inl e
      | Inr h' \<Rightarrow> Inr (printf_d64 h' out))"

definition worker2 :: "stdout \<Rightarrow> c_error + stdout" where
  "worker2 out =
     (let start = 0; runs = 2500; inner = 1000; mod_v = 2147483647; h = 11 in
      case worker_for start runs inner mod_v h of
        Inl e \<Rightarrow> Inl e
      | Inr h' \<Rightarrow> Inr (printf_d64 h' out))"

definition worker3 :: "stdout \<Rightarrow> c_error + stdout" where
  "worker3 out =
     (let start = 0; runs = 2500; inner = 1000; mod_v = 2147483647; h = 13 in
      case worker_for start runs inner mod_v h of
        Inl e \<Rightarrow> Inl e
      | Inr h' \<Rightarrow> Inr (printf_d64 h' out))"

definition worker4 :: "stdout \<Rightarrow> c_error + stdout" where
  "worker4 out =
     (let start = 0; runs = 2500; inner = 1000; mod_v = 2147483647; h = 17 in
      case worker_for start runs inner mod_v h of
        Inl e \<Rightarrow> Inl e
      | Inr h' \<Rightarrow> Inr (printf_d64 h' out))"

section \<open>Task-parallel blocks (parallel.c, parallel_block_bench.c)\<close>

text \<open>
  A task-parallel block is lowered to calls of \<open>pthread_create\<close> and \<open>pthread_join\<close>. The
  embedding is a step relation on the state of the process: the position of \<open>main\<close> in
  the statements of the block, one entry for each handle of the array \<open>__par_threads\<close>,
  standard output, and the exit status once \<open>main\<close> has returned. A spawned function is
  a function on standard output; it runs in one step, at any moment between its
  \<open>pthread_create\<close> and the return of \<open>main\<close>: each spawned function of the corpus has
  one observable effect, a single \<open>printf\<close>. \<open>pthread_create\<close> is taken to succeed, as the
  programs ignore its result. \<open>Started k\<close> is a thread whose argument points to the slot
  \<open>k\<close> of the array \<open>__par_fns\<close>; \<open>pthread_join\<close> blocks until the thread has terminated;
  the return of \<open>main\<close> ends the process, and with it every thread.
\<close>

type_synonym fn = "stdout \<Rightarrow> stdout"

datatype pthread = Unstarted | Started nat | Terminated

datatype stmt = Pthread_create nat nat | Pthread_join nat | Return int

record machine =
  pc :: nat
  threads :: "pthread list"
  console :: stdout
  status :: "int option"

text \<open>
  \<^verbatim>\<open>
  static void* __1im_par_runner(void* arg) {
      void (*fn)(void) = *(void (**)(void))arg; fn(); return NULL; }
  \<close>
\<close>

definition par_runner :: "fn list \<Rightarrow> nat \<Rightarrow> stdout \<Rightarrow> stdout" where
  "par_runner fns arg out = (let fn = fns ! arg in fn out)"

inductive step :: "stmt list \<Rightarrow> fn list \<Rightarrow> machine \<Rightarrow> machine \<Rightarrow> bool"
  for prog :: "stmt list" and fns :: "fn list" where
  create: "status s = None \<Longrightarrow> pc s < length prog \<Longrightarrow> prog ! pc s = Pthread_create t k \<Longrightarrow>
      t < length (threads s) \<Longrightarrow> k < length fns \<Longrightarrow>
      step prog fns s (s\<lparr> pc := pc s + 1, threads := (threads s)[t := Started k] \<rparr>)"
| run: "status s = None \<Longrightarrow> t < length (threads s) \<Longrightarrow> threads s ! t = Started k \<Longrightarrow>
      step prog fns s
        (s\<lparr> threads := (threads s)[t := Terminated], console := par_runner fns k (console s) \<rparr>)"
| join: "status s = None \<Longrightarrow> pc s < length prog \<Longrightarrow> prog ! pc s = Pthread_join t \<Longrightarrow>
      t < length (threads s) \<Longrightarrow> threads s ! t = Terminated \<Longrightarrow>
      step prog fns s (s\<lparr> pc := pc s + 1 \<rparr>)"
| return: "status s = None \<Longrightarrow> pc s < length prog \<Longrightarrow> prog ! pc s = Return c \<Longrightarrow>
      step prog fns s (s\<lparr> status := Some c \<rparr>)"

text \<open>
  parallel.c: \<open>show_a\<close>, \<open>show_b\<close> and the loop annotated \<open>#pragma omp parallel for\<close>,
  run in order as the loop it is without OpenMP:
  \<^verbatim>\<open>
  for (size_t __i0 = 0; __i0 < 4; __i0++) { int32_t n = nums[__i0]; printf("%d\n", (int)n); }
  \<close>
\<close>

definition show_a :: fn where
  "show_a out = printf_d 100 out"

definition show_b :: fn where
  "show_b out = printf_d 200 out"

function omp_for :: "memory \<Rightarrow> nat \<Rightarrow> stdout \<Rightarrow> stdout option" where
  "omp_for m i0 out =
     (if i0 < 4
      then case index m (''nums'', 0) i0 of
             None \<Rightarrow> None
           | Some n \<Rightarrow> omp_for m (i0 + 1) (printf_d n out)
      else Some out)"
  by pat_completeness auto
termination
  by (relation "measure (\<lambda>(m, i0, out). 4 - i0)") auto

declare omp_for.simps [simp del]

text \<open>
  parallel.c, \<open>main\<close>: the part before the block gives the state in which the block
  starts, and the block with the \<open>return\<close> after it is
  \<^verbatim>\<open>
  pthread_t __par_threads2[2];
  void (*__par_fns3[2])(void) = { (void (*)(void))show_a, (void (*)(void))show_b };
  pthread_create(&__par_threads2[0], NULL, __1im_par_runner, (void*)&__par_fns3[0]);
  pthread_create(&__par_threads2[1], NULL, __1im_par_runner, (void*)&__par_fns3[1]);
  pthread_join(__par_threads2[0], NULL);
  pthread_join(__par_threads2[1], NULL);
  return 0;
  \<close>
\<close>

definition par_fns3 :: "fn list" where
  "par_fns3 = [show_a, show_b]"

definition parallel_block :: "stmt list" where
  "parallel_block =
     [Pthread_create 0 0, Pthread_create 1 1, Pthread_join 0, Pthread_join 1, Return 0]"

definition parallel_main_start :: "memory \<Rightarrow> stdout \<Rightarrow> machine option" where
  "parallel_main_start m0 out0 = do {
     let m1 = declare_array ''nums'' [1, 2, 3, 4] m0;
     out1 \<leftarrow> omp_for m1 0 out0;
     Some \<lparr> pc = 0, threads = [Unstarted, Unstarted], console = out1, status = None \<rparr>
   }"

definition parallel_main_reaches :: "machine \<Rightarrow> bool" where
  "parallel_main_reaches s \<longleftrightarrow>
     (\<exists>s0. parallel_main_start Map.empty [] = Some s0 \<and>
           rtranclp (step parallel_block par_fns3) s0 s)"

text \<open>
  parallel_block_bench.c, \<open>main\<close>:
  \<^verbatim>\<open>
  pthread_t __par_threads0[4];
  void (*__par_fns1[4])(void) = { work1, work2, work3, work4 };
  pthread_create(&__par_threads0[0], NULL, __1im_par_runner, (void*)&__par_fns1[0]);
  ... [1], [2], [3]
  pthread_join(__par_threads0[0], NULL);
  ... [1], [2], [3]
  return 0;
  \<close>
\<close>

definition par_fns1 :: "fn list" where
  "par_fns1 = [work1, work2, work3, work4]"

definition parallel_block_bench_block :: "stmt list" where
  "parallel_block_bench_block =
     [Pthread_create 0 0, Pthread_create 1 1, Pthread_create 2 2, Pthread_create 3 3,
      Pthread_join 0, Pthread_join 1, Pthread_join 2, Pthread_join 3, Return 0]"

definition parallel_block_bench_start :: "stdout \<Rightarrow> machine" where
  "parallel_block_bench_start out0 =
     \<lparr> pc = 0, threads = [Unstarted, Unstarted, Unstarted, Unstarted], console = out0,
       status = None \<rparr>"

definition parallel_block_bench_reaches :: "machine \<Rightarrow> bool" where
  "parallel_block_bench_reaches s \<longleftrightarrow>
     rtranclp (step parallel_block_bench_block par_fns1) (parallel_block_bench_start []) s"

section \<open>The preambles of the emitted units\<close>

text \<open>
  An emitted unit, as far as its preamble goes: its path under the repository, the
  headers of its \<open>#include\<close> lines in their order, and its task-parallel blocks, each as
  the functions of its array \<open>__par_fns\<close> (the units without \<open>pthread_create\<close> have none).
\<close>

record comp_unit =
  path :: string
  preamble :: "string list"
  par_blocks :: "string list list"













text \<open>
  The preamble as the specification words it: formatted I/O, fixed-width integers, the
  boolean type, memory and string utilities and the size type always; the threading
  header exactly when the unit has a task-parallel block.
\<close>

definition preamble_as_specified :: "comp_unit \<Rightarrow> bool" where
  "preamble_as_specified u \<longleftrightarrow>
     ''stdio.h'' \<in> set (preamble u) \<and> ''stdint.h'' \<in> set (preamble u) \<and>
     ''stdbool.h'' \<in> set (preamble u) \<and> ''string.h'' \<in> set (preamble u) \<and>
     ''stddef.h'' \<in> set (preamble u) \<and>
     (''pthread.h'' \<in> set (preamble u)) = (par_blocks u \<noteq> [])"

section \<open>Notions used in the proofs\<close>

text \<open>
  The shape shared by the task-parallel blocks of the corpus, \<open>n\<close> creations, \<open>n\<close> joins
  in the same order and a return, with the state in which such a block starts; the
  threads that have terminated; and the invariant of the runs of a block whose
  \<open>i\<close>-th function prints the line \<open>line i\<close> after the output \<open>base\<close>.
\<close>

definition boot :: "nat \<Rightarrow> stdout \<Rightarrow> machine" where
  "boot n out = \<lparr> pc = 0, threads = replicate n Unstarted, console = out, status = None \<rparr>"

definition par_block :: "nat \<Rightarrow> int \<Rightarrow> stmt list" where
  "par_block n c =
     map (\<lambda>i. Pthread_create i i) [0..<n] @ map Pthread_join [0..<n] @ [Return c]"

definition finished :: "machine \<Rightarrow> nat set" where
  "finished s = {i. i < length (threads s) \<and> threads s ! i = Terminated}"

definition block_inv :: "nat \<Rightarrow> int \<Rightarrow> (nat \<Rightarrow> string) \<Rightarrow> stdout \<Rightarrow> machine \<Rightarrow> bool" where
  "block_inv n c line base s \<longleftrightarrow>
     length (threads s) = n \<and> pc s \<le> 2 * n \<and>
     (status s = None \<or> (status s = Some c \<and> pc s = 2 * n)) \<and>
     (\<forall>i<n. (pc s \<le> i \<longleftrightarrow> threads s ! i = Unstarted) \<and>
             (\<forall>k. threads s ! i = Started k \<longrightarrow> k = i) \<and>
             (n + i < pc s \<longrightarrow> threads s ! i = Terminated)) \<and>
     (\<exists>X. console s = base @ X \<and> mset X = image_mset line (mset_set (finished s)))"

text \<open>The lines printed by the spawned functions of parallel.c and of the bench.\<close>

definition parallel_line :: "nat \<Rightarrow> string" where
  "parallel_line i = [''100'', ''200''] ! i"

definition bench_line :: "nat \<Rightarrow> string" where
  "bench_line i = ''499999999500000000''"

text \<open>The sum of the integers below \<open>k\<close>, which \<open>work_loop\<close> accumulates.\<close>

definition tri :: "int \<Rightarrow> int" where
  "tri k = k * (k - 1) div 2"

section \<open>Theorems\<close>

subsection \<open>Helper lemmas\<close>

lemma dec_nat_digit: "n < 10 \<Longrightarrow> dec_nat n = [digit_char n]"
  by (simp add: dec_nat.simps)

lemma try_catch_main_run:
  "try_catch_main try_start =
     (\<lparr> printed = [''boom''], reads = [(''__try0'', F_ok), (''__try0'', F_err)] \<rparr>, 0)"
  by (simp add: try_catch_main_def fail_def err_i32_str_err_def rd_def printf_err_def
      printf_s_def try_start_def)

lemma for_nums_from:
  assumes "m ''nums'' = Some xs" and "3 \<le> length xs"
  shows "i \<le> 3 \<Longrightarrow>
    for_nums m i out = Some (out @ map (\<lambda>j. dec_int (sint (xs ! j))) [i..<3])"
proof (induction "3 - i" arbitrary: i out)
  case 0
  then show ?case by (simp add: for_nums.simps)
next
  case (Suc k)
  then have lt: "i < 3" by simp
  have elem: "index m (''nums'', 0) i = Some (xs ! i)"
    using assms lt by (simp add: index_def load_def ptr_add_def)
  have "for_nums m (i + 1) (printf_d (xs ! i) out) =
        Some (printf_d (xs ! i) out @ map (\<lambda>j. dec_int (sint (xs ! j))) [i + 1..<3])"
    using Suc.hyps(1) [of "i + 1"] Suc.hyps(2) lt by simp
  then show ?case
    using lt elem by (subst for_nums.simps) (simp add: printf_d_def upt_conv_Cons)
qed

lemma for_iter3_from:
  assumes "m (fst (data it)) = Some xs" and "snd (data it) + len it \<le> length xs"
  shows "i \<le> len it \<Longrightarrow>
    for_iter3 m it i out =
      Some (out @ map (\<lambda>j. dec_int (sint (xs ! (snd (data it) + j)))) [i..<len it])"
proof (induction "len it - i" arbitrary: i out)
  case 0
  then show ?case by (simp add: for_iter3.simps)
next
  case (Suc k)
  then have lt: "i < len it" by simp
  have elem: "index m (data it) i = Some (xs ! (snd (data it) + i))"
    using assms lt by (simp add: index_def load_def ptr_add_def)
  have "for_iter3 m it (i + 1) (printf_d (xs ! (snd (data it) + i)) out) =
        Some (printf_d (xs ! (snd (data it) + i)) out @
              map (\<lambda>j. dec_int (sint (xs ! (snd (data it) + j)))) [i + 1..<len it])"
    using Suc.hyps(1) [of "i + 1"] Suc.hyps(2) lt by simp
  then show ?case
    using lt elem by (subst for_iter3.simps) (simp add: printf_d_def upt_conv_Cons)
qed

lemma function_arrays_main_run:
  "function_arrays_main junk m0 [] =
     Some (m0(''arr'' \<mapsto> [7, 8, 9], ''s_data'' \<mapsto> [4, 5, 6]), [''7'', ''5''], 0)"
  by (simp add: function_arrays_main_def declare_array_def memcpy_def make3_def first_def
      index_def load_def ptr_add_def id_slice_def printf_d_def dec_int_def dec_nat_digit
      digit_char_def)

lemma memcpy_after_store:
  assumes "m ''arr'' = Some xs" and "length xs = 3" and "store m (''arr'', i) v = Some m'"
  shows "\<exists>m''. memcpy ''arr'' (value_arr3 make3) 3 m' = Some m'' \<and> m'' ''arr'' = Some [7, 8, 9]"
proof -
  from assms have "m' ''arr'' = Some (xs[i := v])"
    by (auto simp: store_def split: if_splits)
  then show ?thesis
    using assms(2) by (simp add: memcpy_def make3_def)
qed

lemma c_mod_nonzero:
  "b \<noteq> 0 \<Longrightarrow> c_mod a b = Inl SignedOverflow \<or> (\<exists>m. c_mod a b = Inr m)"
  by (simp add: c_mod_def)

lemma c_mod_plain:
  "b \<noteq> 0 \<Longrightarrow> b \<noteq> - 1 \<Longrightarrow> c_mod a b = Inr (word_of_int (sint a smod sint b))"
  by (simp add: c_mod_def)

lemma gcd_loop_ends:
  "(\<exists>a'. gcd_loop a b = Inr (a', 0)) \<or> gcd_loop a b = Inl SignedOverflow"
proof (induction a b rule: gcd_loop.induct)
  case (1 a b)
  show ?case
  proof (cases "b = 0")
    case True
    then show ?thesis by (subst gcd_loop.simps) simp
  next
    case False
    from c_mod_nonzero [OF False, of a] show ?thesis
    proof
      assume "c_mod a b = Inl SignedOverflow"
      with False have "gcd_loop a b = Inl SignedOverflow"
        by (subst gcd_loop.simps) simp
      then show ?thesis ..
    next
      assume "\<exists>m. c_mod a b = Inr m"
      then obtain m where m: "c_mod a b = Inr m" ..
      from False m have "gcd_loop a b = gcd_loop b m"
        by (subst gcd_loop.simps) simp
      with "1.IH" [OF False refl m] show ?thesis
        by simp
    qed
  qed
qed

lemma worker_while_no_error:
  "mod_v \<noteq> 0 \<Longrightarrow> mod_v \<noteq> - 1 \<Longrightarrow> \<exists>x. worker_while i inner mod_v r h = Inr x"
proof (induction i inner mod_v r h rule: worker_while.induct)
  case (1 i inner mod_v r h)
  show ?case
  proof (cases "sint i < sint inner")
    case False
    then show ?thesis by (subst worker_while.simps) simp
  next
    case True
    have m: "c_mod (h * 31 + i + r) mod_v = Inr (word_of_int (sint (h * 31 + i + r) smod sint mod_v))"
      using "1.prems" by (rule c_mod_plain)
    from "1.IH" [OF True m "1.prems"] show ?thesis
      using True m by (subst worker_while.simps) simp
  qed
qed

lemma worker_for_no_error:
  "mod_v \<noteq> 0 \<Longrightarrow> mod_v \<noteq> - 1 \<Longrightarrow> \<exists>x. worker_for r runs inner mod_v h = Inr x"
proof (induction r runs inner mod_v h rule: worker_for.induct)
  case (1 r runs inner mod_v h)
  show ?case
  proof (cases "sint r < sint runs")
    case False
    then show ?thesis by (subst worker_for.simps) simp
  next
    case True
    obtain i' h' where w: "worker_while 0 inner mod_v r h = Inr (i', h')"
      using worker_while_no_error [OF "1.prems", of 0 inner r h] by auto
    from "1.IH" [OF True refl w refl "1.prems"] show ?thesis
      using True w by (subst worker_for.simps) simp
  qed
qed

lemma half_product_succ: "(k + 1) * (k + 1 - 1) div 2 = k * (k - 1) div 2 + (k :: int)"
proof -
  have "(k + 1) * (k + 1 - 1) = k * (k - 1) + k * 2"
    by (simp add: algebra_simps)
  then show ?thesis
    by simp
qed

lemma par_block_create:
  "p < length (par_block n c) \<Longrightarrow> par_block n c ! p = Pthread_create t k \<Longrightarrow> p < n \<and> t = p \<and> k = p"
  by (auto simp: par_block_def nth_append split: if_splits)

lemma par_block_join:
  "p < length (par_block n c) \<Longrightarrow> par_block n c ! p = Pthread_join t \<Longrightarrow> n \<le> p \<and> p < 2 * n \<and> t = p - n"
  by (auto simp: par_block_def nth_append split: if_splits)

lemma par_block_return:
  "p < length (par_block n c) \<Longrightarrow> par_block n c ! p = Return c' \<Longrightarrow> p = 2 * n \<and> c' = c"
  by (auto simp: par_block_def nth_append split: if_splits)

lemma finished_boot: "finished (boot n base) = {}"
  by (auto simp: finished_def boot_def)

lemma block_inv_boot: "block_inv n c line base (boot n base)"
  by (simp add: block_inv_def finished_boot) (simp add: boot_def)

lemma finished_create:
  assumes "threads s ! t = Unstarted"
  shows "finished (s\<lparr> pc := p, threads := (threads s)[t := Started k] \<rparr>) = finished s"
proof -
  have "(threads s)[t := Started k] ! x = Terminated \<longleftrightarrow> threads s ! x = Terminated"
    if "x < length (threads s)" for x
  proof (cases "x = t")
    case True
    with that assms show ?thesis by simp
  next
    case False
    then show ?thesis by simp
  qed
  then show ?thesis
    by (auto simp: finished_def)
qed

lemma finished_pc: "finished (s\<lparr> pc := p \<rparr>) = finished s"
  by (simp add: finished_def)

lemma finished_status: "finished (s\<lparr> status := x \<rparr>) = finished s"
  by (simp add: finished_def)

lemma finished_update:
  assumes "t < length (threads s)" and "threads s ! t = Started k"
  shows "finished (s\<lparr> threads := (threads s)[t := Terminated], console := x \<rparr>) = insert t (finished s)"
    and "t \<notin> finished s" and "finite (finished s)"
  using assms by (auto simp: finished_def nth_list_update)

lemma block_inv_step:
  assumes fns: "length fns = n" "\<forall>k<n. \<forall>out. (fns ! k) out = out @ [line k]"
    and inv: "block_inv n c line base s"
    and st: "step (par_block n c) fns s s'"
  shows "block_inv n c line base s'"
  using st
proof cases
  case (create t k)
  then have "pc s < n" "t = pc s" "k = pc s"
    using par_block_create [of "pc s" n c t k] by simp_all
  moreover from inv \<open>pc s < n\<close> have "threads s ! pc s = Unstarted"
    by (auto simp: block_inv_def)
  ultimately show ?thesis
    using inv create by (auto simp: block_inv_def finished_create nth_list_update)
next
  case (run t k)
  from inv have len: "length (threads s) = n" by (simp add: block_inv_def)
  with inv run have kt: "k = t" by (simp add: block_inv_def)
  from inv obtain X where X: "console s = base @ X"
      "mset X = image_mset line (mset_set (finished s))"
    by (auto simp: block_inv_def)
  have out: "par_runner fns k (console s) = base @ (X @ [line t])"
    using fns run len kt X by (simp add: par_runner_def)
  have fin: "finished s' = insert t (finished s)" "t \<notin> finished s" "finite (finished s)"
    using finished_update [of t s k] run by simp_all
  have "mset (X @ [line t]) = image_mset line (mset_set (finished s'))"
    using fin X by simp
  with out have cons: "\<exists>Y. console s' = base @ Y \<and> mset Y = image_mset line (mset_set (finished s'))"
    using run by auto
  have rest: "length (threads s') = n \<and> pc s' \<le> 2 * n \<and>
     (status s' = None \<or> (status s' = Some c \<and> pc s' = 2 * n)) \<and>
     (\<forall>i<n. (pc s' \<le> i \<longleftrightarrow> threads s' ! i = Unstarted) \<and>
             (\<forall>k. threads s' ! i = Started k \<longrightarrow> k = i) \<and>
             (n + i < pc s' \<longrightarrow> threads s' ! i = Terminated))"
    using inv run by (auto simp: block_inv_def nth_list_update)
  from rest cons show ?thesis
    unfolding block_inv_def by blast
next
  case (join t)
  then have pos: "n \<le> pc s" "pc s < 2 * n" "t = pc s - n"
    using par_block_join [of "pc s" n c t] by simp_all
  have joined: "threads s ! i = Terminated" if "i < n" "n + i < Suc (pc s)" for i
  proof (cases "n + i < pc s")
    case True
    with inv that show ?thesis by (auto simp: block_inv_def)
  next
    case False
    with that pos have "i = t" by simp
    with join show ?thesis by simp
  qed
  from inv have "\<forall>i<n. pc s \<le> i \<longleftrightarrow> threads s ! i = Unstarted"
    by (auto simp: block_inv_def)
  with pos have unst: "\<forall>i<n. Suc (pc s) \<le> i \<longleftrightarrow> threads s ! i = Unstarted"
    by auto
  show ?thesis
    using inv join pos joined unst by (auto simp: block_inv_def finished_pc)
next
  case (return c')
  then have "pc s = 2 * n" "c' = c"
    using par_block_return [of "pc s" n c c'] by simp_all
  with inv return show ?thesis
    by (auto simp: block_inv_def finished_status)
qed

lemma block_inv_reachable:
  assumes "length fns = n" "\<forall>k<n. \<forall>out. (fns ! k) out = out @ [line k]"
    and "rtranclp (step (par_block n c) fns) (boot n base) s"
  shows "block_inv n c line base s"
  using assms(3)
proof (induction rule: rtranclp_induct)
  case base
  show ?case by (rule block_inv_boot)
next
  case (step s s')
  then show ?case using block_inv_step [OF assms(1,2)] by blast
qed

lemma block_inv_exit:
  assumes "block_inv n c line base s" and "status s \<noteq> None"
  shows "status s = Some c \<and> threads s = replicate n Terminated \<and>
         (\<exists>X. console s = base @ X \<and> mset X = mset (map line [0..<n]))"
proof -
  from assms have pc: "pc s = 2 * n" and st: "status s = Some c" and len: "length (threads s) = n"
    by (auto simp: block_inv_def)
  from assms(1) pc have all: "\<forall>i<n. threads s ! i = Terminated"
    by (simp add: block_inv_def)
  with len have thr: "threads s = replicate n Terminated"
    by (simp add: list_eq_iff_nth_eq)
  from all len have "finished s = {0..<n}"
    by (auto simp: finished_def)
  moreover from assms(1) obtain X where "console s = base @ X"
      "mset X = image_mset line (mset_set (finished s))"
    by (auto simp: block_inv_def)
  ultimately have "console s = base @ X \<and> mset X = mset (map line [0..<n])"
    by simp
  with st thr show ?thesis by blast
qed

lemma no_step_after_exit: "status s \<noteq> None \<Longrightarrow> \<not> step prog fns s s'"
  by (auto elim: step.cases)

lemma tri_succ: "tri (k + 1) = tri k + k"
  using half_product_succ [of k] by (simp add: tri_def)

lemma tri_mono: "0 \<le> a \<Longrightarrow> a \<le> b \<Longrightarrow> tri a \<le> tri b"
proof (induction "nat (b - a)" arbitrary: b)
  case 0
  then show ?case by simp
next
  case (Suc d)
  then have "tri a \<le> tri (b - 1)" by simp
  also have "tri (b - 1) \<le> tri (b - 1) + (b - 1)" using Suc by simp
  also have "\<dots> = tri b" using tri_succ [of "b - 1"] by simp
  finally show ?case .
qed

lemma work_loop_sum:
  "0 \<le> sint i \<Longrightarrow> sint i \<le> sint n \<Longrightarrow> 0 \<le> sint sum_v \<Longrightarrow>
   sint sum_v + (tri (sint n) - tri (sint i)) < 2 ^ 63 \<Longrightarrow>
   sint (work_loop i n sum_v) = sint sum_v + (tri (sint n) - tri (sint i))"
proof (induction i n sum_v rule: work_loop.induct)
  case (1 i n sum_v)
  show ?case
  proof (cases "sint i < sint n")
    case False
    with "1.prems" have "sint i = sint n" by simp
    with False show ?thesis by (subst work_loop.simps) simp
  next
    case True
    then have i1: "sint (i + 1) = sint i + 1" by (rule sint_succ)
    have "tri (sint i + 1) \<le> tri (sint n)"
      using True "1.prems"(1) by (intro tri_mono) simp_all
    then have step: "sint i \<le> tri (sint n) - tri (sint i)"
      by (simp add: tri_succ)
    have s1: "sint (sum_v + i) = sint sum_v + sint i"
      using "1.prems" step by (intro sint_add_in_range) linarith+
    have "sint (work_loop (i + 1) n (sum_v + i)) =
          sint (sum_v + i) + (tri (sint n) - tri (sint (i + 1)))"
      using True "1.prems" step by (intro "1.IH") (simp_all add: i1 s1 tri_succ)
    then show ?thesis
      using True by (subst work_loop.simps) (simp add: i1 s1 tri_succ)
  qed
qed

lemma work_loop_bench: "sint (work_loop 0 1000000000 0) = 499999999500000000"
  using work_loop_sum [of 0 1000000000 0] by (simp add: tri_def)

lemma dec_int_bench: "dec_int 499999999500000000 = ''499999999500000000''"
  by (simp add: dec_int_def dec_nat.simps digit_char_def)

lemma work_prints:
  "work1 out = out @ [''499999999500000000'']" "work2 out = out @ [''499999999500000000'']"
  "work3 out = out @ [''499999999500000000'']" "work4 out = out @ [''499999999500000000'']"
  by (simp_all add: work1_def work2_def work3_def work4_def printf_d64_def work_loop_bench
      dec_int_bench)

lemma show_prints: "show_a out = out @ [''100'']" "show_b out = out @ [''200'']"
  by (simp_all add: show_a_def show_b_def printf_d_def dec_int_def dec_nat.simps digit_char_def)

lemma parallel_main_start_run:
  "parallel_main_start m0 [] =
     Some \<lparr> pc = 0, threads = [Unstarted, Unstarted], console = [''1'', ''2'', ''3'', ''4''],
            status = None \<rparr>"
  by (simp add: parallel_main_start_def declare_array_def omp_for.simps index_def load_def
      ptr_add_def printf_d_def dec_int_def dec_nat_digit digit_char_def)

lemma parallel_block_shape: "parallel_block = par_block 2 0"
  by (simp add: parallel_block_def par_block_def upt_conv_Cons numeral_2_eq_2)

lemma bench_block_shape: "parallel_block_bench_block = par_block 4 0"
  by (simp add: parallel_block_bench_block_def par_block_def upt_conv_Cons numeral_eq_Suc)

lemma boot2: "boot 2 out = \<lparr> pc = 0, threads = [Unstarted, Unstarted], console = out, status = None \<rparr>"
  by (simp add: boot_def numeral_2_eq_2)

lemma boot4: "boot 4 out = parallel_block_bench_start out"
  by (simp add: boot_def parallel_block_bench_start_def numeral_eq_Suc)

lemma mset_pair: "mset X = {#a, b#} \<Longrightarrow> X = [a, b] \<or> X = [b, a]"
proof -
  assume m: "mset X = {#a, b#}"
  then have "length X = 2"
    by (metis size_mset size_add_mset size_empty numeral_2_eq_2)
  then obtain x y where X: "X = [x, y]"
    by (cases X; cases "tl X") auto
  with m show ?thesis
    by (auto simp: add_eq_conv_ex)
qed

lemma par_block_nth:
  "p < n \<Longrightarrow> par_block n c ! p = Pthread_create p p"
  "n \<le> p \<Longrightarrow> p < 2 * n \<Longrightarrow> par_block n c ! p = Pthread_join (p - n)"
  "par_block n c ! (2 * n) = Return c"
  "length (par_block n c) = 2 * n + 1"
  by (auto simp: par_block_def nth_append)

lemma block_inv_progress:
  assumes fns: "length fns = n" and inv: "block_inv n c line base s" and live: "status s = None"
  shows "\<exists>s'. step (par_block n c) fns s s'"
proof -
  from inv have len: "length (threads s) = n" and pc: "pc s \<le> 2 * n"
    by (auto simp: block_inv_def)
  consider "pc s < n" | "n \<le> pc s" "pc s < 2 * n" | "pc s = 2 * n"
    using pc by linarith
  then show ?thesis
  proof cases
    case 1
    then show ?thesis
      using step.create [of s "par_block n c" "pc s" "pc s" fns] live len fns
      by (auto simp: par_block_nth)
  next
    case 2
    let ?t = "pc s - n"
    from 2 have t: "?t < n" "\<not> pc s \<le> ?t" by simp_all
    with inv have "threads s ! ?t \<noteq> Unstarted"
      by (auto simp: block_inv_def)
    then consider k where "threads s ! ?t = Started k" | "threads s ! ?t = Terminated"
      by (cases "threads s ! ?t") auto
    then show ?thesis
    proof cases
      case (1 k)
      then show ?thesis
        using step.run [of s ?t k "par_block n c" fns] live len t by auto
    next
      case 2
      then show ?thesis
        using step.join [of s "par_block n c" ?t fns] live len t \<open>n \<le> pc s\<close> \<open>pc s < 2 * n\<close>
        by (auto simp: par_block_nth)
    qed
  next
    case 3
    then show ?thesis
      using step.return [of s "par_block n c" c fns] live by (auto simp: par_block_nth)
  qed
qed

lemma block_inv_console:
  assumes "block_inv n c line base s"
  shows "\<exists>X. console s = base @ X \<and> mset X \<subseteq># mset (map line [0..<n])"
proof -
  from assms obtain X where X: "console s = base @ X"
      "mset X = image_mset line (mset_set (finished s))" and len: "length (threads s) = n"
    by (auto simp: block_inv_def)
  from len have "finished s \<subseteq> {0..<n}"
    by (auto simp: finished_def)
  then have "mset_set (finished s) \<subseteq># mset_set {0..<n}"
    by (intro subset_imp_msubset_mset_set) simp_all
  then have "image_mset line (mset_set (finished s)) \<subseteq># image_mset line (mset_set {0..<n})"
    by (rule image_mset_subseteq_mono)
  with X show ?thesis
    by auto
qed

lemma par_fns3_lines:
  "length par_fns3 = 2" "\<forall>k<2. \<forall>out. (par_fns3 ! k) out = out @ [parallel_line k]"
  by (auto simp: par_fns3_def parallel_line_def show_prints less_Suc_eq numeral_2_eq_2)

lemma parallel_main_inv:
  assumes "parallel_main_reaches s"
  shows "block_inv 2 0 parallel_line [''1'', ''2'', ''3'', ''4''] s"
proof -
  from assms have "rtranclp (step (par_block 2 0) par_fns3) (boot 2 [''1'', ''2'', ''3'', ''4'']) s"
    by (simp add: parallel_main_reaches_def parallel_main_start_run parallel_block_shape boot2)
  then show ?thesis
    by (rule block_inv_reachable [OF par_fns3_lines])
qed

lemma upt2: "[0..<2] = [0, 1]"
  by (simp add: upt_conv_Cons numeral_2_eq_2)

lemma parallel_run_b_first:
  "parallel_main_reaches 
     \<lparr> pc = 4, threads = [Terminated, Terminated], console = [''1'', ''2'', ''3'', ''4'', ''200'', ''100''], status = Some 0 \<rparr>"
proof -
  let ?s0 = "\<lparr> pc = 0, threads = [Unstarted, Unstarted], console = [''1'', ''2'', ''3'', ''4''], status = None \<rparr>"
  let ?s1 = "\<lparr> pc = 1, threads = [Started 0, Unstarted], console = [''1'', ''2'', ''3'', ''4''], status = None \<rparr>"
  let ?s2 = "\<lparr> pc = 2, threads = [Started 0, Started 1], console = [''1'', ''2'', ''3'', ''4''], status = None \<rparr>"
  let ?s3 = "\<lparr> pc = 2, threads = [Started 0, Terminated], console = [''1'', ''2'', ''3'', ''4'', ''200''], status = None \<rparr>"
  let ?s4 = "\<lparr> pc = 2, threads = [Terminated, Terminated], console = [''1'', ''2'', ''3'', ''4'', ''200'', ''100''], status = None \<rparr>"
  let ?s5 = "\<lparr> pc = 3, threads = [Terminated, Terminated], console = [''1'', ''2'', ''3'', ''4'', ''200'', ''100''], status = None \<rparr>"
  let ?s6 = "\<lparr> pc = 4, threads = [Terminated, Terminated], console = [''1'', ''2'', ''3'', ''4'', ''200'', ''100''], status = None \<rparr>"
  let ?s7 = "\<lparr> pc = 4, threads = [Terminated, Terminated], console = [''1'', ''2'', ''3'', ''4'', ''200'', ''100''], status = Some 0 \<rparr>"
  let ?R = "step parallel_block par_fns3"
  have r1: "?R ?s0 ?s1"
    using step.create [of ?s0 parallel_block 0 0 par_fns3]
    by (simp add: parallel_block_def par_fns3_def par_runner_def show_prints numeral_eq_Suc)
  have r2: "?R ?s1 ?s2"
    using step.create [of ?s1 parallel_block 1 1 par_fns3]
    by (simp add: parallel_block_def par_fns3_def par_runner_def show_prints numeral_eq_Suc)
  have r3: "?R ?s2 ?s3"
    using step.run [of ?s2 1 1 parallel_block par_fns3]
    by (simp add: parallel_block_def par_fns3_def par_runner_def show_prints numeral_eq_Suc)
  have r4: "?R ?s3 ?s4"
    using step.run [of ?s3 0 0 parallel_block par_fns3]
    by (simp add: parallel_block_def par_fns3_def par_runner_def show_prints numeral_eq_Suc)
  have r5: "?R ?s4 ?s5"
    using step.join [of ?s4 parallel_block 0 par_fns3]
    by (simp add: parallel_block_def par_fns3_def par_runner_def show_prints numeral_eq_Suc)
  have r6: "?R ?s5 ?s6"
    using step.join [of ?s5 parallel_block 1 par_fns3]
    by (simp add: parallel_block_def par_fns3_def par_runner_def show_prints numeral_eq_Suc)
  have r7: "?R ?s6 ?s7"
    using step.return [of ?s6 parallel_block 0 par_fns3]
    by (simp add: parallel_block_def par_fns3_def par_runner_def show_prints numeral_eq_Suc)
  have "rtranclp ?R ?s0 ?s0" by simp
  then have "rtranclp ?R ?s0 ?s1" using r1 by (rule rtranclp.rtrancl_into_rtrancl)
  then have "rtranclp ?R ?s0 ?s2" using r2 by (rule rtranclp.rtrancl_into_rtrancl)
  then have "rtranclp ?R ?s0 ?s3" using r3 by (rule rtranclp.rtrancl_into_rtrancl)
  then have "rtranclp ?R ?s0 ?s4" using r4 by (rule rtranclp.rtrancl_into_rtrancl)
  then have "rtranclp ?R ?s0 ?s5" using r5 by (rule rtranclp.rtrancl_into_rtrancl)
  then have "rtranclp ?R ?s0 ?s6" using r6 by (rule rtranclp.rtrancl_into_rtrancl)
  then have "rtranclp ?R ?s0 ?s7" using r7 by (rule rtranclp.rtrancl_into_rtrancl)
  then show ?thesis
    by (simp add: parallel_main_reaches_def parallel_main_start_run)
qed

lemma parallel_run_a_first:
  "parallel_main_reaches 
     \<lparr> pc = 4, threads = [Terminated, Terminated], console = [''1'', ''2'', ''3'', ''4'', ''100'', ''200''], status = Some 0 \<rparr>"
proof -
  let ?s0 = "\<lparr> pc = 0, threads = [Unstarted, Unstarted], console = [''1'', ''2'', ''3'', ''4''], status = None \<rparr>"
  let ?s1 = "\<lparr> pc = 1, threads = [Started 0, Unstarted], console = [''1'', ''2'', ''3'', ''4''], status = None \<rparr>"
  let ?s2 = "\<lparr> pc = 2, threads = [Started 0, Started 1], console = [''1'', ''2'', ''3'', ''4''], status = None \<rparr>"
  let ?s3 = "\<lparr> pc = 2, threads = [Terminated, Started 1], console = [''1'', ''2'', ''3'', ''4'', ''100''], status = None \<rparr>"
  let ?s4 = "\<lparr> pc = 2, threads = [Terminated, Terminated], console = [''1'', ''2'', ''3'', ''4'', ''100'', ''200''], status = None \<rparr>"
  let ?s5 = "\<lparr> pc = 3, threads = [Terminated, Terminated], console = [''1'', ''2'', ''3'', ''4'', ''100'', ''200''], status = None \<rparr>"
  let ?s6 = "\<lparr> pc = 4, threads = [Terminated, Terminated], console = [''1'', ''2'', ''3'', ''4'', ''100'', ''200''], status = None \<rparr>"
  let ?s7 = "\<lparr> pc = 4, threads = [Terminated, Terminated], console = [''1'', ''2'', ''3'', ''4'', ''100'', ''200''], status = Some 0 \<rparr>"
  let ?R = "step parallel_block par_fns3"
  have r1: "?R ?s0 ?s1"
    using step.create [of ?s0 parallel_block 0 0 par_fns3]
    by (simp add: parallel_block_def par_fns3_def par_runner_def show_prints numeral_eq_Suc)
  have r2: "?R ?s1 ?s2"
    using step.create [of ?s1 parallel_block 1 1 par_fns3]
    by (simp add: parallel_block_def par_fns3_def par_runner_def show_prints numeral_eq_Suc)
  have r3: "?R ?s2 ?s3"
    using step.run [of ?s2 0 0 parallel_block par_fns3]
    by (simp add: parallel_block_def par_fns3_def par_runner_def show_prints numeral_eq_Suc)
  have r4: "?R ?s3 ?s4"
    using step.run [of ?s3 1 1 parallel_block par_fns3]
    by (simp add: parallel_block_def par_fns3_def par_runner_def show_prints numeral_eq_Suc)
  have r5: "?R ?s4 ?s5"
    using step.join [of ?s4 parallel_block 0 par_fns3]
    by (simp add: parallel_block_def par_fns3_def par_runner_def show_prints numeral_eq_Suc)
  have r6: "?R ?s5 ?s6"
    using step.join [of ?s5 parallel_block 1 par_fns3]
    by (simp add: parallel_block_def par_fns3_def par_runner_def show_prints numeral_eq_Suc)
  have r7: "?R ?s6 ?s7"
    using step.return [of ?s6 parallel_block 0 par_fns3]
    by (simp add: parallel_block_def par_fns3_def par_runner_def show_prints numeral_eq_Suc)
  have "rtranclp ?R ?s0 ?s0" by simp
  then have "rtranclp ?R ?s0 ?s1" using r1 by (rule rtranclp.rtrancl_into_rtrancl)
  then have "rtranclp ?R ?s0 ?s2" using r2 by (rule rtranclp.rtrancl_into_rtrancl)
  then have "rtranclp ?R ?s0 ?s3" using r3 by (rule rtranclp.rtrancl_into_rtrancl)
  then have "rtranclp ?R ?s0 ?s4" using r4 by (rule rtranclp.rtrancl_into_rtrancl)
  then have "rtranclp ?R ?s0 ?s5" using r5 by (rule rtranclp.rtrancl_into_rtrancl)
  then have "rtranclp ?R ?s0 ?s6" using r6 by (rule rtranclp.rtrancl_into_rtrancl)
  then have "rtranclp ?R ?s0 ?s7" using r7 by (rule rtranclp.rtrancl_into_rtrancl)
  then show ?thesis
    by (simp add: parallel_main_reaches_def parallel_main_start_run)
qed

lemma parallel_block_bench_run:
  "parallel_block_bench_reaches 
     \<lparr> pc = 8, threads = [Terminated, Terminated, Terminated, Terminated], console = [''499999999500000000'', ''499999999500000000'', ''499999999500000000'', ''499999999500000000''], status = Some 0 \<rparr>"
proof -
  let ?s0 = "\<lparr> pc = 0, threads = [Unstarted, Unstarted, Unstarted, Unstarted], console = [], status = None \<rparr>"
  let ?s1 = "\<lparr> pc = 1, threads = [Started 0, Unstarted, Unstarted, Unstarted], console = [], status = None \<rparr>"
  let ?s2 = "\<lparr> pc = 2, threads = [Started 0, Started 1, Unstarted, Unstarted], console = [], status = None \<rparr>"
  let ?s3 = "\<lparr> pc = 3, threads = [Started 0, Started 1, Started 2, Unstarted], console = [], status = None \<rparr>"
  let ?s4 = "\<lparr> pc = 4, threads = [Started 0, Started 1, Started 2, Started 3], console = [], status = None \<rparr>"
  let ?s5 = "\<lparr> pc = 4, threads = [Started 0, Started 1, Terminated, Started 3], console = [''499999999500000000''], status = None \<rparr>"
  let ?s6 = "\<lparr> pc = 4, threads = [Terminated, Started 1, Terminated, Started 3], console = [''499999999500000000'', ''499999999500000000''], status = None \<rparr>"
  let ?s7 = "\<lparr> pc = 4, threads = [Terminated, Started 1, Terminated, Terminated], console = [''499999999500000000'', ''499999999500000000'', ''499999999500000000''], status = None \<rparr>"
  let ?s8 = "\<lparr> pc = 4, threads = [Terminated, Terminated, Terminated, Terminated], console = [''499999999500000000'', ''499999999500000000'', ''499999999500000000'', ''499999999500000000''], status = None \<rparr>"
  let ?s9 = "\<lparr> pc = 5, threads = [Terminated, Terminated, Terminated, Terminated], console = [''499999999500000000'', ''499999999500000000'', ''499999999500000000'', ''499999999500000000''], status = None \<rparr>"
  let ?s10 = "\<lparr> pc = 6, threads = [Terminated, Terminated, Terminated, Terminated], console = [''499999999500000000'', ''499999999500000000'', ''499999999500000000'', ''499999999500000000''], status = None \<rparr>"
  let ?s11 = "\<lparr> pc = 7, threads = [Terminated, Terminated, Terminated, Terminated], console = [''499999999500000000'', ''499999999500000000'', ''499999999500000000'', ''499999999500000000''], status = None \<rparr>"
  let ?s12 = "\<lparr> pc = 8, threads = [Terminated, Terminated, Terminated, Terminated], console = [''499999999500000000'', ''499999999500000000'', ''499999999500000000'', ''499999999500000000''], status = None \<rparr>"
  let ?s13 = "\<lparr> pc = 8, threads = [Terminated, Terminated, Terminated, Terminated], console = [''499999999500000000'', ''499999999500000000'', ''499999999500000000'', ''499999999500000000''], status = Some 0 \<rparr>"
  let ?R = "step parallel_block_bench_block par_fns1"
  have r1: "?R ?s0 ?s1"
    using step.create [of ?s0 parallel_block_bench_block 0 0 par_fns1]
    by (simp add: parallel_block_bench_block_def par_fns1_def par_runner_def work_prints numeral_eq_Suc)
  have r2: "?R ?s1 ?s2"
    using step.create [of ?s1 parallel_block_bench_block 1 1 par_fns1]
    by (simp add: parallel_block_bench_block_def par_fns1_def par_runner_def work_prints numeral_eq_Suc)
  have r3: "?R ?s2 ?s3"
    using step.create [of ?s2 parallel_block_bench_block 2 2 par_fns1]
    by (simp add: parallel_block_bench_block_def par_fns1_def par_runner_def work_prints numeral_eq_Suc)
  have r4: "?R ?s3 ?s4"
    using step.create [of ?s3 parallel_block_bench_block 3 3 par_fns1]
    by (simp add: parallel_block_bench_block_def par_fns1_def par_runner_def work_prints numeral_eq_Suc)
  have r5: "?R ?s4 ?s5"
    using step.run [of ?s4 2 2 parallel_block_bench_block par_fns1]
    by (simp add: parallel_block_bench_block_def par_fns1_def par_runner_def work_prints numeral_eq_Suc)
  have r6: "?R ?s5 ?s6"
    using step.run [of ?s5 0 0 parallel_block_bench_block par_fns1]
    by (simp add: parallel_block_bench_block_def par_fns1_def par_runner_def work_prints numeral_eq_Suc)
  have r7: "?R ?s6 ?s7"
    using step.run [of ?s6 3 3 parallel_block_bench_block par_fns1]
    by (simp add: parallel_block_bench_block_def par_fns1_def par_runner_def work_prints numeral_eq_Suc)
  have r8: "?R ?s7 ?s8"
    using step.run [of ?s7 1 1 parallel_block_bench_block par_fns1]
    by (simp add: parallel_block_bench_block_def par_fns1_def par_runner_def work_prints numeral_eq_Suc)
  have r9: "?R ?s8 ?s9"
    using step.join [of ?s8 parallel_block_bench_block 0 par_fns1]
    by (simp add: parallel_block_bench_block_def par_fns1_def par_runner_def work_prints numeral_eq_Suc)
  have r10: "?R ?s9 ?s10"
    using step.join [of ?s9 parallel_block_bench_block 1 par_fns1]
    by (simp add: parallel_block_bench_block_def par_fns1_def par_runner_def work_prints numeral_eq_Suc)
  have r11: "?R ?s10 ?s11"
    using step.join [of ?s10 parallel_block_bench_block 2 par_fns1]
    by (simp add: parallel_block_bench_block_def par_fns1_def par_runner_def work_prints numeral_eq_Suc)
  have r12: "?R ?s11 ?s12"
    using step.join [of ?s11 parallel_block_bench_block 3 par_fns1]
    by (simp add: parallel_block_bench_block_def par_fns1_def par_runner_def work_prints numeral_eq_Suc)
  have r13: "?R ?s12 ?s13"
    using step.return [of ?s12 parallel_block_bench_block 0 par_fns1]
    by (simp add: parallel_block_bench_block_def par_fns1_def par_runner_def work_prints numeral_eq_Suc)
  have "rtranclp ?R ?s0 ?s0" by simp
  then have "rtranclp ?R ?s0 ?s1" using r1 by (rule rtranclp.rtrancl_into_rtrancl)
  then have "rtranclp ?R ?s0 ?s2" using r2 by (rule rtranclp.rtrancl_into_rtrancl)
  then have "rtranclp ?R ?s0 ?s3" using r3 by (rule rtranclp.rtrancl_into_rtrancl)
  then have "rtranclp ?R ?s0 ?s4" using r4 by (rule rtranclp.rtrancl_into_rtrancl)
  then have "rtranclp ?R ?s0 ?s5" using r5 by (rule rtranclp.rtrancl_into_rtrancl)
  then have "rtranclp ?R ?s0 ?s6" using r6 by (rule rtranclp.rtrancl_into_rtrancl)
  then have "rtranclp ?R ?s0 ?s7" using r7 by (rule rtranclp.rtrancl_into_rtrancl)
  then have "rtranclp ?R ?s0 ?s8" using r8 by (rule rtranclp.rtrancl_into_rtrancl)
  then have "rtranclp ?R ?s0 ?s9" using r9 by (rule rtranclp.rtrancl_into_rtrancl)
  then have "rtranclp ?R ?s0 ?s10" using r10 by (rule rtranclp.rtrancl_into_rtrancl)
  then have "rtranclp ?R ?s0 ?s11" using r11 by (rule rtranclp.rtrancl_into_rtrancl)
  then have "rtranclp ?R ?s0 ?s12" using r12 by (rule rtranclp.rtrancl_into_rtrancl)
  then have "rtranclp ?R ?s0 ?s13" using r13 by (rule rtranclp.rtrancl_into_rtrancl)
  then show ?thesis
    by (simp add: parallel_block_bench_reaches_def parallel_block_bench_start_def)
qed

lemma par_fns1_lines:
  "length par_fns1 = 4" "\<forall>k<4. \<forall>out. (par_fns1 ! k) out = out @ [bench_line k]"
  by (auto simp: par_fns1_def bench_line_def work_prints less_Suc_eq numeral_eq_Suc)

lemma parallel_block_bench_inv:
  assumes "parallel_block_bench_reaches s"
  shows "block_inv 4 0 bench_line [] s"
proof -
  from assms have "rtranclp (step (par_block 4 0) par_fns1) (boot 4 []) s"
    by (simp add: parallel_block_bench_reaches_def bench_block_shape boot4)
  then show ?thesis
    by (rule block_inv_reachable [OF par_fns1_lines])
qed

lemma seq_bench_run:
  "parallel_block_seq_bench_main [] =
     ([''499999999500000000'', ''499999999500000000'', ''499999999500000000'',
       ''499999999500000000''], 0)"
  by (simp add: parallel_block_seq_bench_main_def work_prints)

text \<open>
  Whatever unit has the preamble the specification words has the four headers and,
  with a task-parallel block, pthread.h.
\<close>

lemma specified_preamble_weakened:
  assumes "preamble_as_specified u"
  shows "''stdio.h'' \<in> set (preamble u) \<and> ''stdint.h'' \<in> set (preamble u) \<and>
     ''stdbool.h'' \<in> set (preamble u) \<and> ''string.h'' \<in> set (preamble u) \<and>
     (par_blocks u \<noteq> [] \<longrightarrow> ''pthread.h'' \<in> set (preamble u))"
  using assms by (simp add: preamble_as_specified_def)

subsection \<open>The claims\<close>

text \<open>
  C9: for every value \<open>v\<close>, \<open>err_i32_str_ok v\<close> has \<open>ok = true\<close>, \<open>value = v\<close> and
  \<open>err = NULL\<close>; for every error string \<open>e\<close>, \<open>err_i32_str_err e\<close> has \<open>ok = false\<close>,
  \<open>value = 0\<close> and \<open>err = e\<close>. So every result value built in try_catch.c and
  try_propagate.c (by \<open>fail\<close> and by \<open>wrap\<close>, in whatever state they are called) holds the
  fixed default in the payload field that its discriminant does not select.
\<close>

theorem result_constructors_fix_unselected_field:
  "ok (err_i32_str_ok v) \<and> value_i32 (err_i32_str_ok v) = v \<and> err (err_i32_str_ok v) = None \<and>
   \<not> ok (err_i32_str_err e) \<and> value_i32 (err_i32_str_err e) = 0 \<and> err (err_i32_str_err e) = e \<and>
   default_unselected (err_i32_str_ok v) \<and> default_unselected (err_i32_str_err e) \<and>
   default_unselected (fst (fail st)) \<and> default_unselected (fst (wrap st))"
  by (simp add: err_i32_str_ok_def err_i32_str_err_def default_unselected_def fail_def wrap_def
      rd_def)

text \<open>
  C1: in try_propagate.c, \<open>wrap\<close> returns at its error check with a result that carries
  the error string "boom" of \<open>fail\<close>; along the whole chain only the fields \<open>ok\<close> and
  \<open>err\<close> are read, never \<open>value\<close>; the output of the program is the one line "boom" and
  its exit status is 0.
\<close>

theorem try_propagate_surfaces_boom:
  "wrap try_start = (err_i32_str_err (Some ''boom''),
                 \<lparr> printed = [], reads = [(''__try0'', F_ok), (''__try0'', F_err)] \<rparr>) \<and>
   try_propagate_main try_start =
     (\<lparr> printed = [''boom''],
        reads = [(''__try0'', F_ok), (''__try0'', F_err), (''__try1'', F_ok), (''__try1'', F_err)] \<rparr>, 0) \<and>
   F_value \<notin> snd ` set (reads (fst (try_propagate_main try_start)))"
  by (simp add: try_propagate_main_def wrap_def fail_def err_i32_str_err_def rd_def
      printf_err_def printf_s_def try_start_def)

text \<open>
  C4: for every slice \<open>s\<close>, \<open>id_slice s\<close> has the pointer and the length of \<open>s\<close>, so
  it aliases the storage of \<open>s\<close>: an element stored through either of the two is the
  element read through the other. In function_arrays.c the second element read through
  the slice returned for \<open>{4,5,6}\<close> is 5, and "5" is the second line printed.
\<close>

theorem id_slice_aliases_its_argument:
  "data (id_slice s) = data s \<and> len (id_slice s) = len s \<and>
   (\<forall>m i v m'. store m (ptr_add (data (id_slice s)) i) v = Some m' \<longrightarrow>
      index m' (data s) i = Some v) \<and>
   (\<forall>m i v m'. store m (ptr_add (data s) i) v = Some m' \<longrightarrow>
      index m' (data (id_slice s)) i = Some v) \<and>
   index (m0(''s_data'' \<mapsto> [4, 5, 6])) (data (id_slice \<lparr> data = (''s_data'', 0), len = 3 \<rparr>)) 1
     = Some 5 \<and>
   map_option (\<lambda>r. fst (snd r) ! 1) (function_arrays_main junk m0 []) = Some ''5''"
proof -
  have aliasing: "store m p v = Some m' \<Longrightarrow> load m' p = Some v" for m p v m'
    by (auto simp: store_def load_def split: option.splits if_splits)
  show ?thesis
    using aliasing
    by (simp add: id_slice_def index_def function_arrays_main_run) (simp add: load_def ptr_add_def)
qed

theorem id_slice_aliases_its_argument_witness:
  "store [''s_data'' \<mapsto> [4, 5, 6]]
     (ptr_add (data (id_slice \<lparr> data = (''s_data'', 0), len = 3 \<rparr>)) 1) 42
     = Some [''s_data'' \<mapsto> [4, 42, 6]] \<and>
   index [''s_data'' \<mapsto> [4, 42, 6]] (data \<lparr> data = (''s_data'', 0), len = 3 \<rparr>) 1 = Some 42"
proof -
  have st: "store [''s_data'' \<mapsto> [4, 5, 6]]
     (ptr_add (data (id_slice \<lparr> data = (''s_data'', 0), len = 3 \<rparr>)) 1) 42
     = Some [''s_data'' \<mapsto> [4, 42, 6]]"
    by (simp add: store_def ptr_add_def id_slice_def)
  with id_slice_aliases_its_argument [of "\<lparr> data = (''s_data'', 0), len = 3 \<rparr>"]
  show ?thesis by blast
qed

text \<open>
  C5: \<open>make3()\<close> returns the wrapper whose \<open>value\<close> is \<open>{7,8,9}\<close>; \<open>main\<close> copies the
  three elements into its own \<open>arr\<close>, whatever \<open>arr\<close> held, so \<open>first(arr)\<close> is 7 and "7"
  is the first line printed; and after any store into the caller's three-element \<open>arr\<close>,
  copying out the result of another call of \<open>make3()\<close> gives \<open>{7,8,9}\<close> again.
\<close>

theorem make3_returns_fresh_copy:
  "value_arr3 make3 = [7, 8, 9] \<and>
   memcpy ''arr'' (value_arr3 make3) 3 (declare_array ''arr'' (map junk [0..<3]) m0)
     = Some (m0(''arr'' \<mapsto> [7, 8, 9])) \<and>
   first (m0(''arr'' \<mapsto> [7, 8, 9])) (''arr'', 0) = Some 7 \<and>
   (\<exists>m rest. function_arrays_main junk m0 [] = Some (m, ''7'' # rest, 0) \<and>
      m ''arr'' = Some [7, 8, 9]) \<and>
   (\<forall>m xs i v m'. m ''arr'' = Some xs \<and> length xs = 3 \<and> store m (''arr'', i) v = Some m' \<longrightarrow>
      (\<exists>m''. memcpy ''arr'' (value_arr3 make3) 3 m' = Some m'' \<and> m'' ''arr'' = Some [7, 8, 9]))"
proof (intro conjI allI impI)
  show "value_arr3 make3 = [7, 8, 9]"
    by (simp add: make3_def)
  show "memcpy ''arr'' (value_arr3 make3) 3 (declare_array ''arr'' (map junk [0..<3]) m0)
     = Some (m0(''arr'' \<mapsto> [7, 8, 9]))"
    by (simp add: memcpy_def make3_def declare_array_def)
  show "first (m0(''arr'' \<mapsto> [7, 8, 9])) (''arr'', 0) = Some 7"
    by (simp add: first_def index_def load_def ptr_add_def)
  show "\<exists>m rest. function_arrays_main junk m0 [] = Some (m, ''7'' # rest, 0) \<and>
      m ''arr'' = Some [7, 8, 9]"
    by (simp add: function_arrays_main_run)
next
  fix m xs i v m'
  assume "m ''arr'' = Some xs \<and> length xs = 3 \<and> store m (''arr'', i) v = Some m'"
  then show "\<exists>m''. memcpy ''arr'' (value_arr3 make3) 3 m' = Some m'' \<and> m'' ''arr'' = Some [7, 8, 9]"
    using memcpy_after_store by blast
qed

theorem make3_returns_fresh_copy_witness:
  "[''arr'' \<mapsto> [7, 8, 9]] ''arr'' = Some [7, 8, 9] \<and> length [7 :: int32_t, 8, 9] = 3 \<and>
   store [''arr'' \<mapsto> [7, 8, 9]] (''arr'', 0) 1 = Some [''arr'' \<mapsto> [1, 8, 9]] \<and>
   (\<exists>m''. memcpy ''arr'' (value_arr3 make3) 3 [''arr'' \<mapsto> [1, 8, 9]] = Some m'' \<and>
      m'' ''arr'' = Some [7, 8, 9])"
proof -
  have h: "[''arr'' \<mapsto> [7 :: int32_t, 8, 9]] ''arr'' = Some [7, 8, 9] \<and>
    length [7 :: int32_t, 8, 9] = 3 \<and>
    store [''arr'' \<mapsto> [7, 8, 9]] (''arr'', 0) 1 = Some [''arr'' \<mapsto> [1, 8, 9]]"
    by (simp add: store_def)
  have "\<forall>m xs i v m'. m ''arr'' = Some xs \<and> length xs = 3 \<and> store m (''arr'', i) v = Some m' \<longrightarrow>
      (\<exists>m''. memcpy ''arr'' (value_arr3 make3) 3 m' = Some m'' \<and> m'' ''arr'' = Some [7, 8, 9])"
    using make3_returns_fresh_copy by (rule conjunct2 [THEN conjunct2, THEN conjunct2, THEN conjunct2])
  then have "\<exists>m''. memcpy ''arr'' (value_arr3 make3) 3 [''arr'' \<mapsto> [1, 8, 9]] = Some m'' \<and>
      m'' ''arr'' = Some [7, 8, 9]"
    using h by (elim allE impE) assumption+
  with h show ?thesis by simp
qed

text \<open>
  C6: in for_array.c the loop over the fixed array prints the elements at the indices
  0, 1, 2 in this order, reading the array only; the loop over the slice runs on the
  temporary that \<open>main\<close> binds once to \<open>s\<close> and prints the elements at the indices
  0 .. len - 1 of that temporary in this order. \<open>main\<close> prints the lines 1, 2, 3, 4, 5, 6,
  leaves both arrays as they were declared, and returns 0.
\<close>

theorem for_array_visits_in_order:
  "(\<forall>m xs out. m ''nums'' = Some xs \<and> length xs = 3 \<longrightarrow>
      for_nums m 0 out = Some (out @ map (\<lambda>j. dec_int (sint (xs ! j))) [0, 1, 2])) \<and>
   (\<forall>m iter3 xs out. m (fst (data iter3)) = Some xs \<and> snd (data iter3) + len iter3 \<le> length xs \<longrightarrow>
      for_iter3 m iter3 0 out =
        Some (out @ map (\<lambda>j. dec_int (sint (xs ! (snd (data iter3) + j)))) [0..<len iter3])) \<and>
   for_array_main m0 [] =
     Some (m0(''nums'' \<mapsto> [1, 2, 3], ''s_data'' \<mapsto> [4, 5, 6]),
           [''1'', ''2'', ''3'', ''4'', ''5'', ''6''], 0)"
proof (intro conjI allI impI)
  fix m :: memory and xs out
  assume "m ''nums'' = Some xs \<and> length xs = 3"
  then have "for_nums m 0 out = Some (out @ map (\<lambda>j. dec_int (sint (xs ! j))) [0..<3])"
    using for_nums_from [of m xs 0 out] by simp
  then show "for_nums m 0 out = Some (out @ map (\<lambda>j. dec_int (sint (xs ! j))) [0, 1, 2])"
    by (simp add: upt_conv_Cons numeral_2_eq_2)
next
  fix m :: memory and iter3 :: slice_i32 and xs out
  assume "m (fst (data iter3)) = Some xs \<and> snd (data iter3) + len iter3 \<le> length xs"
  then show "for_iter3 m iter3 0 out =
        Some (out @ map (\<lambda>j. dec_int (sint (xs ! (snd (data iter3) + j)))) [0..<len iter3])"
    using for_iter3_from [of m iter3 xs 0 out] by simp
next
  show "for_array_main m0 [] =
     Some (m0(''nums'' \<mapsto> [1, 2, 3], ''s_data'' \<mapsto> [4, 5, 6]),
           [''1'', ''2'', ''3'', ''4'', ''5'', ''6''], 0)"
    by (simp add: for_array_main_def declare_array_def for_nums.simps for_iter3.simps index_def
        load_def ptr_add_def printf_d_def dec_int_def dec_nat_digit digit_char_def)
qed

theorem for_array_visits_in_order_witness:
  "for_nums [''nums'' \<mapsto> [1, 2, 3]] 0 [] = Some [''1'', ''2'', ''3''] \<and>
   for_iter3 [''s_data'' \<mapsto> [4, 5, 6]] \<lparr> data = (''s_data'', 1), len = 2 \<rparr> 0 []
     = Some [''5'', ''6'']"
proof -
  let ?m1 = "[''nums'' \<mapsto> [1 :: int32_t, 2, 3]]"
  let ?m2 = "[''s_data'' \<mapsto> [4 :: int32_t, 5, 6]]"
  let ?it = "\<lparr> data = (''s_data'', 1 :: nat), len = 2 :: nat \<rparr>"
  have h1: "?m1 ''nums'' = Some [1, 2, 3] \<and> length [1 :: int32_t, 2, 3] = 3"
    by simp
  have h2: "?m2 (fst (data ?it)) = Some [4, 5, 6] \<and>
            snd (data ?it) + len ?it \<le> length [4 :: int32_t, 5, 6]"
    by simp
  have n: "for_nums ?m1 0 [] =
            Some ([] @ map (\<lambda>j. dec_int (sint ([1 :: int32_t, 2, 3] ! j))) [0, 1, 2])"
    by (rule for_array_visits_in_order
        [THEN conjunct1, rule_format, of ?m1 "[1, 2, 3]" "[]", OF h1])
  have i: "for_iter3 ?m2 ?it 0 [] =
            Some ([] @ map (\<lambda>j. dec_int (sint ([4 :: int32_t, 5, 6] ! (snd (data ?it) + j))))
               [0..<len ?it])"
    by (rule for_array_visits_in_order
        [THEN conjunct2, THEN conjunct1, rule_format, of ?m2 ?it "[4, 5, 6]" "[]", OF h2])
  have u: "[0..<2] = [0, Suc 0]"
    by (simp add: upt_conv_Cons)
  show ?thesis
    unfolding n i by (simp add: u dec_int_def dec_nat_digit digit_char_def)
qed

text \<open>
  C7: the loop of gcd.c ends for every \<open>a\<close> and \<open>b\<close>, either at its exit with
  \<open>b = 0\<close> or at the remainder of the least \<open>int32_t\<close> by \<open>-1\<close>; from \<open>a = 48\<close> and
  \<open>b = 18\<close> it reaches its exit with \<open>a = 6\<close>, so the program prints the one line "6"
  and returns 0.
\<close>

theorem gcd_main_prints_6:
  "((\<exists>a'. gcd_loop a b = Inr (a', 0)) \<or> gcd_loop a b = Inl SignedOverflow) \<and>
   gcd_loop 48 18 = Inr (6, 0) \<and>
   gcd_main [] = Inr ([''6''], 0)"
proof -
  have run: "gcd_loop 48 18 = Inr (6, 0)"
    by (simp add: gcd_loop.simps c_mod_def signed_modulo_int_def)
  have "gcd_main [] = Inr ([''6''], 0)"
    by (simp add: gcd_main_def run printf_d_def dec_int_def dec_nat_digit digit_char_def)
  with run gcd_loop_ends [of a b] show ?thesis
    by simp
qed

text \<open>
  C10: no program of the corpus divides by zero in a \<open>%\<close>. In gcd.c the loop guard
  \<open>b != 0\<close> protects \<open>a % b\<close>, so the loop never reaches \<open>DivByZero\<close>, for every \<open>a\<close> and
  \<open>b\<close>; in prime.c the divisors of the run are 2, 3, 4, 5; in toyhash_parallel.c the
  divisor is the constant 2147483647, for every start value of \<open>h\<close> and every loop
  bound. The runs of \<open>gcd\<close>, \<open>prime\<close> and the four workers return a value, so no guard
  of \<open>%\<close> fails in them.
\<close>

theorem modulo_divisors_nonzero:
  "gcd_loop a b \<noteq> Inl DivByZero \<and> (\<exists>x. gcd_main out = Inr x) \<and>
   prime_loop 29 2 True = Inr (6, True) \<and> (\<exists>x. prime_main out = Inr x) \<and>
   (\<exists>x. worker_for r runs inner 2147483647 h = Inr x) \<and>
   (\<exists>x. worker1 out = Inr x) \<and> (\<exists>x. worker2 out = Inr x) \<and>
   (\<exists>x. worker3 out = Inr x) \<and> (\<exists>x. worker4 out = Inr x)"
proof -
  have g: "gcd_loop a b \<noteq> Inl DivByZero"
    using gcd_loop_ends [of a b] by auto
  have "gcd_loop 48 18 = Inr (6, 0)"
    by (simp add: gcd_loop.simps c_mod_def signed_modulo_int_def)
  then have gm: "\<exists>x. gcd_main out = Inr x"
    by (simp add: gcd_main_def)
  have p: "prime_loop 29 2 True = Inr (6, True)"
    by (simp add: prime_loop.simps c_mod_def signed_modulo_int_def)
  have pm: "\<exists>x. prime_main out = Inr x"
    by (simp add: prime_main_def p)
  have w: "\<exists>x. worker_for r runs inner 2147483647 h = Inr x" for r runs inner h
    by (rule worker_for_no_error) simp_all
  have w1: "\<exists>x. worker1 out = Inr x"
    using w [of 0 2500 1000 7] by (auto simp: worker1_def)
  have w2: "\<exists>x. worker2 out = Inr x"
    using w [of 0 2500 1000 11] by (auto simp: worker2_def)
  have w3: "\<exists>x. worker3 out = Inr x"
    using w [of 0 2500 1000 13] by (auto simp: worker3_def)
  have w4: "\<exists>x. worker4 out = Inr x"
    using w [of 0 2500 1000 17] by (auto simp: worker4_def)
  from g gm p pm w w1 w2 w3 w4 show ?thesis
    by (intro conjI)
qed

text \<open>
  C2: in every run of parallel.c the output is the four lines of the loop followed by
  lines of the spawned calls, each at most once; a run that has not returned can
  always take a step; and once \<open>main\<close> has returned, with status 0, both threads have
  terminated, the lines "100" and "200" are each in the output exactly once, in one of
  the two orders, these two are the only lines after those of the loop, and no step
  follows.
\<close>

theorem parallel_block_joins_before_return:
  assumes "parallel_main_reaches s"
  shows "(\<exists>X. console s = [''1'', ''2'', ''3'', ''4''] @ X \<and> mset X \<subseteq># {#''100'', ''200''#}) \<and>
         (status s = None \<longrightarrow> (\<exists>s'. step parallel_block par_fns3 s s')) \<and>
         (status s \<noteq> None \<longrightarrow>
            status s = Some 0 \<and> threads s = [Terminated, Terminated] \<and>
            (console s = [''1'', ''2'', ''3'', ''4'', ''100'', ''200''] \<or>
             console s = [''1'', ''2'', ''3'', ''4'', ''200'', ''100'']) \<and>
            count (mset (console s)) ''100'' = 1 \<and> count (mset (console s)) ''200'' = 1 \<and>
            (\<forall>s'. \<not> step parallel_block par_fns3 s s'))"
proof (intro conjI impI)
  note inv = parallel_main_inv [OF assms]
  show "\<exists>X. console s = [''1'', ''2'', ''3'', ''4''] @ X \<and> mset X \<subseteq># {#''100'', ''200''#}"
    using block_inv_console [OF inv] by (simp add: upt2 parallel_line_def)
  show "\<exists>s'. step parallel_block par_fns3 s s'" if "status s = None"
    using block_inv_progress [OF par_fns3_lines(1) inv that] by (simp add: parallel_block_shape)
  assume exited: "status s \<noteq> None"
  from block_inv_exit [OF inv exited] obtain X where
    ex: "status s = Some 0" "threads s = replicate 2 Terminated"
      "console s = [''1'', ''2'', ''3'', ''4''] @ X" "mset X = {#''100'', ''200''#}"
    by (auto simp: upt2 parallel_line_def)
  from ex(4) have X: "X = [''100'', ''200''] \<or> X = [''200'', ''100'']"
    by (rule mset_pair)
  show "status s = Some 0" by (rule ex(1))
  show "threads s = [Terminated, Terminated]"
    using ex(2) by (simp add: numeral_2_eq_2)
  show "console s = [''1'', ''2'', ''3'', ''4'', ''100'', ''200''] \<or>
        console s = [''1'', ''2'', ''3'', ''4'', ''200'', ''100'']"
    using ex(3) X by auto
  show "count (mset (console s)) ''100'' = 1" "count (mset (console s)) ''200'' = 1"
    using ex(3,4) by simp_all
  show "\<forall>s'. \<not> step parallel_block par_fns3 s s'"
    using exited by (simp add: no_step_after_exit)
qed

theorem parallel_block_joins_before_return_witness:
  "parallel_main_reaches
     \<lparr> pc = 4, threads = [Terminated, Terminated],
       console = [''1'', ''2'', ''3'', ''4'', ''200'', ''100''], status = Some 0 \<rparr> \<and>
   parallel_main_reaches
     \<lparr> pc = 4, threads = [Terminated, Terminated],
       console = [''1'', ''2'', ''3'', ''4'', ''100'', ''200''], status = Some 0 \<rparr> \<and>
   count (mset [''1'', ''2'', ''3'', ''4'', ''200'', ''100'']) ''100'' = 1 \<and>
   count (mset [''1'', ''2'', ''3'', ''4'', ''200'', ''100'']) ''200'' = 1"
  using parallel_block_joins_before_return [OF parallel_run_b_first] parallel_run_b_first
    parallel_run_a_first
  by simp

text \<open>
  C8: parallel_block_seq_bench.c prints the line "499999999500000000" four times and
  returns 0; every run of parallel_block_bench.c that has returned has printed the same
  multiset of lines, that line four times and nothing else, and has the same exit
  status.
\<close>

theorem bench_parallel_equals_sequential:
  "parallel_block_seq_bench_main [] =
     ([''499999999500000000'', ''499999999500000000'', ''499999999500000000'',
       ''499999999500000000''], 0) \<and>
   (\<forall>s. parallel_block_bench_reaches s \<and> status s \<noteq> None \<longrightarrow>
      mset (console s) = mset (fst (parallel_block_seq_bench_main [])) \<and>
      count (mset (console s)) ''499999999500000000'' = 4 \<and> length (console s) = 4 \<and>
      status s = Some (snd (parallel_block_seq_bench_main [])))"
proof (intro conjI allI impI)
  show "parallel_block_seq_bench_main [] =
     ([''499999999500000000'', ''499999999500000000'', ''499999999500000000'',
       ''499999999500000000''], 0)"
    by (rule seq_bench_run)
next
  fix s
  assume a: "parallel_block_bench_reaches s \<and> status s \<noteq> None"
  then have inv: "block_inv 4 0 bench_line [] s" and exited: "status s \<noteq> None"
    by (simp_all add: parallel_block_bench_inv)
  have m: "mset (map bench_line [0..<4]) = mset (fst (parallel_block_seq_bench_main []))"
    by (simp add: seq_bench_run bench_line_def upt_conv_Cons numeral_eq_Suc)
  from block_inv_exit [OF inv exited] have
    ex: "status s = Some 0" "mset (console s) = mset (map bench_line [0..<4])"
    by auto
  show "mset (console s) = mset (fst (parallel_block_seq_bench_main []))"
    using ex(2) m by simp
  then have "mset (console s) = mset (replicate 4 ''499999999500000000'')"
    by (simp add: seq_bench_run numeral_eq_Suc)
  then show "count (mset (console s)) ''499999999500000000'' = 4"
    by simp
  show "length (console s) = 4"
    using ex(2) mset_eq_length [of "console s" "map bench_line [0..<4]"] by simp
  show "status s = Some (snd (parallel_block_seq_bench_main []))"
    using ex(1) by (simp add: seq_bench_run)
qed

theorem bench_parallel_equals_sequential_witness:
  "parallel_block_bench_reaches
     \<lparr> pc = 8, threads = [Terminated, Terminated, Terminated, Terminated],
       console = [''499999999500000000'', ''499999999500000000'', ''499999999500000000'',
         ''499999999500000000''], status = Some 0 \<rparr> \<and>
   mset [''499999999500000000'', ''499999999500000000'', ''499999999500000000'',
         ''499999999500000000''] = mset (fst (parallel_block_seq_bench_main []))"
  using bench_parallel_equals_sequential [THEN conjunct2, rule_format,
      OF conjI [OF parallel_block_bench_run]]
    parallel_block_bench_run
  by simp




end
